theory Spec2Isabelle
  imports Complex_Main
begin

section \<open>Portal Synthetica: the product catalog and the Buddy assistant (main.py)\<close>

text \<open>
  A shallow embedding of \<^verbatim>\<open>main.py\<close>. The module's globals (\<^verbatim>\<open>products_db\<close>,
  \<^verbatim>\<open>product_id_counter\<close>) and the file \<^verbatim>\<open>products_data.json\<close> are the fields of an
  explicit state; every handler takes the state and returns its answer with the new state.
  A raised exception is the \<open>Inl\<close> branch of a sum.
\<close>

subsection \<open>Python values\<close>

text \<open>
  A Python \<^verbatim>\<open>str\<close> is a sequence of Unicode code points. Literals are written with
  \<open>lit\<close> for their ASCII stretches and with the code point itself elsewhere
  (\<open>[227]\<close> is U+00E3).
\<close>

type_synonym str = "nat list"

abbreviation (input) lit :: "string \<Rightarrow> str" where
  "lit cs \<equiv> map of_char cs"

text \<open>
  Exceptions. \<^verbatim>\<open>HTTPException(status_code, detail)\<close> is FastAPI's; the others are the
  built-in ones this module can raise, and \<open>OtherError\<close> is any exception raised by an
  external library, with its text. Where the source formats an exception with
  \<^verbatim>\<open>str(e)\<close>, the detail keeps the exception itself (\<open>StrOf e\<close>).
\<close>

datatype exn =
    HTTPException nat detail
  | KeyError str
  | TypeError
  | AttributeError
  | JSONDecodeError
  | OtherError str
and detail =
    Text str
  | StrOf exn

subsection \<open>The data model (lines 36--47)\<close>

text \<open>
  \<^verbatim>\<open>class Product(BaseModel)\<close> and \<^verbatim>\<open>class ProductInDB(Product)\<close>. The entries of
  \<^verbatim>\<open>products_db\<close> are the dicts \<^verbatim>\<open>product.dict()\<close> with the key \<^verbatim>\<open>"id"\<close> added: the
  fields of \<open>ProductInDB\<close>. The fields \<^verbatim>\<open>id\<close> and \<^verbatim>\<open>image\<close> are primed, the names being
  constants of HOL. A \<^verbatim>\<open>float\<close> is stored and returned, never computed with: it is the
  real number it denotes.
\<close>

record Product =
  title :: str
  description :: str
  category :: str
  price :: real
  image' :: "str option"
  brand :: "str option"
  model :: "str option"
  year :: "int option"

record ProductInDB = Product +
  id' :: int

text \<open>\<^verbatim>\<open>product_dict = product.dict(); product_dict["id"] = n\<close>\<close>

definition with_id :: "Product \<Rightarrow> int \<Rightarrow> ProductInDB" where
  "with_id product n = Product.extend product (ProductInDB.fields n)"

subsection \<open>The durable file (lines 57, 68--84)\<close>

text \<open>
  The text of \<^verbatim>\<open>products_data.json\<close> is represented by what \<^verbatim>\<open>json.load\<close> makes of it:
  \<open>Json d\<close> when it is an object, \<open>d\<close> holding the values under the keys \<^verbatim>\<open>"products"\<close>
  and \<^verbatim>\<open>"counter"\<close> (each may be missing); \<open>Unreadable\<close> for every content on which the
  \<^verbatim>\<open>try\<close> block of \<^verbatim>\<open>load_products\<close> raises (the file cannot be opened, is not JSON, or
  is not an object); \<open>Absent\<close> when \<^verbatim>\<open>os.path.exists\<close> is false. The product entries of
  a file are of the shape this module writes. What \<^verbatim>\<open>json.dump\<close> writes for a value,
  \<^verbatim>\<open>json.load\<close> reads back as that value.
\<close>

record file_data =
  products :: "ProductInDB list option"
  counter :: "int option"

datatype json_file = Absent | Unreadable | Json file_data

text \<open>
  What the file system does at one call of \<^verbatim>\<open>save_products\<close>: the write goes through;
  or \<^verbatim>\<open>open(DATA_FILE, "w")\<close> raises and the file stays as it was; or the file is opened
  (and so truncated) and \<^verbatim>\<open>json.dump\<close> raises before the text is complete.
\<close>

datatype write_outcome = Written | OpenFails | DumpFails

fun load_products :: "json_file \<Rightarrow> ProductInDB list \<times> int" where
  "load_products Absent = ([], 1)"
| "load_products Unreadable = ([], 1)"
| "load_products (Json data) =
     (case products data of None \<Rightarrow> [] | Some ps \<Rightarrow> ps,
      case counter data of None \<Rightarrow> 1 | Some c \<Rightarrow> c)"

fun save_products :: "write_outcome \<Rightarrow> ProductInDB list \<Rightarrow> int \<Rightarrow> json_file \<Rightarrow> json_file" where
  "save_products Written ps c f = Json \<lparr>products = Some ps, counter = Some c\<rparr>"
| "save_products OpenFails ps c f = f"
| "save_products DumpFails ps c f = Unreadable"

subsection \<open>The catalog state and its handlers (lines 87, 146--201, 351--396)\<close>

record state =
  products_db :: "ProductInDB list"
  product_id_counter :: int
  data_file :: json_file

text \<open>Line 87: \<^verbatim>\<open>products_db, product_id_counter = load_products()\<close>.\<close>

definition init_state :: "json_file \<Rightarrow> state" where
  "init_state f =
     \<lparr>products_db = fst (load_products f),
      product_id_counter = snd (load_products f),
      data_file = f\<rparr>"

definition not_found :: exn where
  "not_found = HTTPException 404 (Text (lit ''Produto n'' @ [227] @ lit ''o encontrado''))"

definition get_products :: "state \<Rightarrow> ProductInDB list" where
  "get_products s = products_db s"

text \<open>The loop of \<^verbatim>\<open>get_product\<close> returns the first entry whose id matches.\<close>

definition get_product :: "int \<Rightarrow> state \<Rightarrow> exn + ProductInDB" where
  "get_product product_id s =
     (case find (\<lambda>product. id' product = product_id) (products_db s) of
        Some product \<Rightarrow> Inr product
      | None \<Rightarrow> Inl not_found)"

definition create_product :: "write_outcome \<Rightarrow> Product \<Rightarrow> state \<Rightarrow> ProductInDB \<times> state" where
  "create_product w product s =
     (let product_dict = with_id product (product_id_counter s);
          n = product_id_counter s + 1;
          db = products_db s @ [product_dict]
      in (product_dict,
          \<lparr>products_db = db, product_id_counter = n,
           data_file = save_products w db n (data_file s)\<rparr>))"

text \<open>
  \<^verbatim>\<open>for i, p in enumerate(products_db): if p["id"] == product_id: ...\<close>: the index of the
  first entry whose id matches, if there is one.
\<close>

fun first_index :: "int \<Rightarrow> ProductInDB list \<Rightarrow> nat option" where
  "first_index product_id [] = None"
| "first_index product_id (p # ps) =
     (if id' p = product_id then Some 0 else map_option Suc (first_index product_id ps))"

definition update_product ::
  "write_outcome \<Rightarrow> int \<Rightarrow> Product \<Rightarrow> state \<Rightarrow> (exn + ProductInDB) \<times> state" where
  "update_product w product_id product s =
     (case first_index product_id (products_db s) of
        Some i \<Rightarrow>
          (let product_dict = with_id product product_id;
               db = (products_db s)[i := product_dict]
           in (Inr product_dict,
               s\<lparr>products_db := db,
                 data_file := save_products w db (product_id_counter s) (data_file s)\<rparr>))
      | None \<Rightarrow> (Inl not_found, s))"

definition deleted_message :: str where
  "deleted_message = lit ''Produto exclu'' @ [237] @ lit ''do com sucesso''"

text \<open>\<^verbatim>\<open>products_db.pop(i)\<close> is \<open>take i db @ drop (Suc i) db\<close>.\<close>

definition delete_product :: "write_outcome \<Rightarrow> int \<Rightarrow> state \<Rightarrow> (exn + str) \<times> state" where
  "delete_product w product_id s =
     (case first_index product_id (products_db s) of
        Some i \<Rightarrow>
          (let db = take i (products_db s) @ drop (Suc i) (products_db s)
           in (Inr deleted_message,
               s\<lparr>products_db := db,
                 data_file := save_products w db (product_id_counter s) (data_file s)\<rparr>))
      | None \<Rightarrow> (Inl not_found, s))"

text \<open>The example products of \<^verbatim>\<open>startup_event\<close> (lines 357--388), before an id is set.\<close>

definition example_products :: "Product list" where
  "example_products =
     [\<lparr>title = lit ''NeuroSync v3'',
       description = lit ''Vers'' @ [227] @ lit ''o avan'' @ [231]
         @ lit ''ada do chip com interface neural, permite transfer'' @ [234]
         @ lit ''ncia de conhecimento em alta velocidade.'',
       category = lit ''Neurotecnologia'',
       price = 29999.90,
       image' = Some (lit ''/static/image/chip.jpg''),
       brand = Some (lit ''SynthTech''),
       model = Some (lit ''NS-3000''),
       year = Some 2023\<rparr>,
      \<lparr>title = lit ''HoloBuddy Pro'',
       description = lit ''Companheiro hologr'' @ [225] @ lit ''fico com IA avan'' @ [231]
         @ lit ''ada, capaz de interagir com objetos f'' @ [237] @ lit ''sicos.'',
       category = lit ''Holografia'',
       price = 22999.90,
       image' = Some (lit ''/static/image/buddy.jpg''),
       brand = Some (lit ''HoloSynth''),
       model = Some (lit ''HB-Pro''),
       year = Some 2023\<rparr>,
      \<lparr>title = lit ''ThermoFit Elite'',
       description = lit ''Roupa inteligente com controle t'' @ [233] @ lit ''rmico avan'' @ [231]
         @ lit ''ado e monitoramento de sa'' @ [250] @ lit ''de em tempo real.'',
       category = lit ''Vest'' @ [237] @ lit ''veis'',
       price = 12999.90,
       image' = Some (lit ''/static/image/roupa.jpg''),
       brand = Some (lit ''SynthWear''),
       model = Some (lit ''TF-Elite''),
       year = Some 2023\<rparr>]"

text \<open>
  The loop of lines 390--393: each example gets the counter as its id, is appended, and
  the counter is incremented.
\<close>

fun seed :: "Product list \<Rightarrow> ProductInDB list \<times> int \<Rightarrow> ProductInDB list \<times> int" where
  "seed [] (db, n) = (db, n)"
| "seed (product # rest) (db, n) = seed rest (db @ [with_id product n], n + 1)"

definition startup_event :: "write_outcome \<Rightarrow> state \<Rightarrow> state" where
  "startup_event w s =
     (if products_db s = [] then
        (let (db, n) = seed example_products (products_db s, product_id_counter s)
         in \<lparr>products_db = db, product_id_counter = n,
             data_file = save_products w db n (data_file s)\<rparr>)
      else s)"

subsection \<open>Sequences of catalog requests\<close>

text \<open>
  The three mutating requests, and what the client learns from each: the id of the
  product created, that the update went through, the id deleted, or the 404.
\<close>

datatype call = Create Product | Update int Product | Delete int

datatype outcome = Created int | Updated | Deleted int | NotFound

fun step :: "write_outcome \<times> call \<Rightarrow> state \<Rightarrow> outcome \<times> state" where
  "step (w, Create p) s =
     (case create_product w p s of (r, s') \<Rightarrow> (Created (id' r), s'))"
| "step (w, Update n p) s =
     (case update_product w n p s of
        (Inr r, s') \<Rightarrow> (Updated, s')
      | (Inl e, s') \<Rightarrow> (NotFound, s'))"
| "step (w, Delete n) s =
     (case delete_product w n s of
        (Inr m, s') \<Rightarrow> (Deleted n, s')
      | (Inl e, s') \<Rightarrow> (NotFound, s'))"

fun run :: "(write_outcome \<times> call) list \<Rightarrow> state \<Rightarrow> outcome list" where
  "run [] s = []"
| "run (c # cs) s = fst (step c s) # run cs (snd (step c s))"

text \<open>The invariant of the data model: the counter is above every id present.\<close>

definition counter_above_ids :: "state \<Rightarrow> bool" where
  "counter_above_ids s = (\<forall>p \<in> set (products_db s). id' p < product_id_counter s)"

definition ids :: "state \<Rightarrow> int set" where
  "ids s = id' ` set (products_db s)"

subsection \<open>Strings: the built-in operations the assistant uses\<close>

text \<open>
  \<^verbatim>\<open>str.isspace\<close> on one code point: the white space of Unicode, at which
  \<^verbatim>\<open>str.split()\<close> cuts.
\<close>

definition isspace :: "nat \<Rightarrow> bool" where
  "isspace c \<longleftrightarrow>
     (9 \<le> c \<and> c \<le> 13) \<or> (28 \<le> c \<and> c \<le> 32) \<or> c = 133 \<or> c = 160 \<or> c = 5760 \<or>
     (8192 \<le> c \<and> c \<le> 8202) \<or> c = 8232 \<or> c = 8233 \<or> c = 8239 \<or> c = 8287 \<or> c = 12288"

text \<open>
  \<^verbatim>\<open>s.split()\<close>: the maximal stretches of \<open>s\<close> without white space, from left to
  right; \<open>word\<close> is the stretch being read.
\<close>

fun split_from :: "str \<Rightarrow> str \<Rightarrow> str list" where
  "split_from word [] = (if word = [] then [] else [word])"
| "split_from word (c # cs) =
     (if isspace c then (if word = [] then split_from [] cs else word # split_from [] cs)
      else split_from (word @ [c]) cs)"

definition split :: "str \<Rightarrow> str list" where
  "split s = split_from [] s"

text \<open>
  \<^verbatim>\<open>s.lower()\<close>, for the letters of Basic Latin and of the Latin-1 Supplement (A to Z,
  and U+00C0 to U+00DE without the multiplication sign U+00D7), which are the letters of
  the knowledge base; other code points are left as they are.
\<close>

definition lower_char :: "nat \<Rightarrow> nat" where
  "lower_char c =
     (if (65 \<le> c \<and> c \<le> 90) \<or> (192 \<le> c \<and> c \<le> 222 \<and> c \<noteq> 215) then c + 32 else c)"

definition lower :: "str \<Rightarrow> str" where
  "lower s = map lower_char s"

text \<open>\<^verbatim>\<open>s.startswith(p)\<close>, and \<^verbatim>\<open>sub in s\<close>: \<open>sub\<close> occurs in \<open>s\<close> at some position.\<close>

fun startswith :: "str \<Rightarrow> str \<Rightarrow> bool" where
  "startswith s [] = True"
| "startswith [] (p # ps) = False"
| "startswith (c # cs) (p # ps) = (c = p \<and> startswith cs ps)"

fun contains :: "str \<Rightarrow> str \<Rightarrow> bool" where
  "contains sub [] = (sub = [])"
| "contains sub (c # cs) = (startswith (c # cs) sub \<or> contains sub cs)"

text \<open>\<^verbatim>\<open>sep.join(xs)\<close>\<close>

fun join :: "str \<Rightarrow> str list \<Rightarrow> str" where
  "join sep [] = []"
| "join sep [x] = x"
| "join sep (x # y # ys) = x @ sep @ join sep (y # ys)"

text \<open>
  \<^verbatim>\<open>s.replace(old, new)\<close>: the occurrences of \<open>old\<close> are replaced from left to right,
  none overlapping another; an empty \<open>old\<close> matches before every code point and at the end.
\<close>

function replace :: "str \<Rightarrow> str \<Rightarrow> str \<Rightarrow> str" where
  "replace old new s =
     (if old = [] then new @ concat (map (\<lambda>c. c # new) s)
      else if s = [] then []
      else if startswith s old then new @ replace old new (drop (length old) s)
      else hd s # replace old new (tl s))"
  by pat_completeness auto
termination
  by (relation "measure (\<lambda>(old, new, s). length s)") auto

declare replace.simps [simp del]

subsection \<open>Values from JSON\<close>

text \<open>
  What \<^verbatim>\<open>json.loads\<close> returns and what a request body's \<^verbatim>\<open>Dict[str, Any]\<close> holds. A
  dict is the list of its items, in order; a float is the real number it denotes.
\<close>

datatype pyval =
    PNone
  | PBool bool
  | PInt int
  | PFloat real
  | PStr str
  | PList "pyval list"
  | PDict "(str \<times> pyval) list"

text \<open>
  \<^verbatim>\<open>x[key]\<close> for a string key: the item of a dict, \<^verbatim>\<open>KeyError\<close> when the dict has no
  such key, \<^verbatim>\<open>TypeError\<close> when \<open>x\<close> is anything else.
\<close>

fun getitem :: "pyval \<Rightarrow> str \<Rightarrow> exn + pyval" where
  "getitem (PDict items) key =
     (case map_of items key of Some v \<Rightarrow> Inr v | None \<Rightarrow> Inl (KeyError key))"
| "getitem x key = Inl TypeError"

subsection \<open>The knowledge base and the context search (lines 60--65, 90--92)\<close>

definition base_conhecimento :: "str list" where
  "base_conhecimento =
     [lit ''A intelig'' @ [234]
        @ lit ''ncia artificial tem revolucionado o mundo da arte generativa, permitindo a cria''
        @ [231, 227] @ lit ''o de obras '' @ [250] @ lit ''nicas por meio de redes neurais.'',
      lit ''Realidade aumentada e IA t'' @ [234] @ lit ''m sido combinadas em experi'' @ [234]
        @ lit ''ncias culturais imersivas, como exposi'' @ [231, 245]
        @ lit ''es interativas em museus.'',
      lit ''Avan'' @ [231] @ lit ''os tecnol'' @ [243] @ lit ''gicos como computa'' @ [231, 227]
        @ lit ''o qu'' @ [226] @ lit ''ntica e IA simb'' @ [243] @ lit ''lica est'' @ [227]
        @ lit ''o moldando o futuro da criatividade artificial.'',
      lit ''IA criativa pode colaborar com artistas, oferecendo sugest'' @ [245]
        @ lit ''es de composi'' @ [231, 227] @ lit ''o, paletas de cor ou at'' @ [233]
        @ lit '' mesmo criando m'' @ [250] @ lit ''sica original.'']"

definition nenhuma_informacao :: str where
  "nenhuma_informacao =
     lit ''Nenhuma informa'' @ [231, 227] @ lit ''o relevante encontrada.''"

definition buscar_conteudo_relevante :: "str \<Rightarrow> str" where
  "buscar_conteudo_relevante preferencia_usuario =
     (let resultados =
        [doc \<leftarrow> base_conhecimento.
           list_ex (\<lambda>palavra. contains (lower palavra) (lower doc)) (split preferencia_usuario)]
      in if resultados \<noteq> [] then join [10] resultados else nenhuma_informacao)"

subsection \<open>The completion provider and the weather service\<close>

text \<open>
  The message of a completion (\<^verbatim>\<open>completion.choices[0].message\<close>): its text, if any, and
  its tool calls (\<^verbatim>\<open>None\<close> and the empty list are both falsy, and both \<open>[]\<close> here).
  The \<^verbatim>\<open>arguments\<close> of a tool call are a string: they are represented by what
  \<^verbatim>\<open>json.loads\<close> makes of it, \<open>Malformed\<close> when \<^verbatim>\<open>json.loads\<close> raises.
\<close>

datatype json_text = Malformed | Parses pyval

record ToolCall =
  tool_call_id :: str
  name :: str
  arguments :: json_text

record ChatCompletionMessage =
  content :: "str option"
  tool_calls :: "ToolCall list"

text \<open>
  The entries of \<^verbatim>\<open>messages\<close>: a dict written out in the source or taken from the
  history; \<^verbatim>\<open>response_message.model_dump()\<close>; and the tool message
  \<^verbatim>\<open>{"role": "tool", "tool_call_id": i, "content": str(resultado)}\<close>, which keeps
  \<open>resultado\<close> itself.
\<close>

datatype message =
    Dict "(str \<times> pyval) list"
  | ModelDump ChatCompletionMessage
  | ToolMessage str pyval

text \<open>
  The two external services, as the functions they are to this module during one
  request. The provider: from the messages and whether \<^verbatim>\<open>tools\<close> is passed, to the
  message of the first choice, or the exception raised on the way (the two submissions of
  a request differ in \<^verbatim>\<open>tools\<close>, so a function can give any pair of answers). The
  weather service: from the coordinates in the URL to the JSON body of the answer, or the
  exception raised by \<^verbatim>\<open>requests.get\<close> or \<^verbatim>\<open>response.json()\<close>.
\<close>

record world =
  chat_completions_create :: "message list \<Rightarrow> bool \<Rightarrow> exn + ChatCompletionMessage"
  requests_get_json :: "pyval \<Rightarrow> pyval \<Rightarrow> exn + pyval"

text \<open>The calls that leave the process, in the order they are made.\<close>

datatype event =
    ChatCompletion "message list" bool
  | WeatherRequest pyval pyval

text \<open>
  \<^verbatim>\<open>get_weather\<close> (lines 95--104) makes one request; every exception of its \<^verbatim>\<open>try\<close>
  block gives 25.0. It returns the temperature and the call it made.
\<close>

definition get_weather :: "world \<Rightarrow> pyval \<Rightarrow> pyval \<Rightarrow> pyval \<times> event list" where
  "get_weather w latitude longitude =
     (case requests_get_json w latitude longitude of
        Inl e \<Rightarrow> PFloat 25.0
      | Inr data \<Rightarrow>
          (case getitem data (lit ''current'') of
             Inl e \<Rightarrow> PFloat 25.0
           | Inr current \<Rightarrow>
               (case getitem current (lit ''temperature_2m'') of
                  Inl e \<Rightarrow> PFloat 25.0
                | Inr temperature \<Rightarrow> temperature)),
      [WeatherRequest latitude longitude])"

subsection \<open>The assistant endpoint (lines 50--54, 204--282)\<close>

record BuddyRequest =
  message :: str
  context' :: "str option"
  history :: "(str \<times> pyval) list list option"
  voice_enabled :: "bool option"

record JSONResponse =
  response :: "str option"
  audio_url :: "str option"

text \<open>Lines 216--217: \<^verbatim>\<open>if not context: context = buscar_conteudo_relevante(user_message)\<close>.\<close>

definition derived_context :: "BuddyRequest \<Rightarrow> str" where
  "derived_context request =
     (case context' request of
        None \<Rightarrow> buscar_conteudo_relevante (message request)
      | Some c \<Rightarrow> if c = [] then buscar_conteudo_relevante (message request) else c)"

definition system_message :: message where
  "system_message =
     Dict [(lit ''role'', PStr (lit ''system'')),
           (lit ''content'',
            PStr (lit ''Voc'' @ [234] @ lit '' '' @ [233]
              @ lit '' Buddy, um agente de IA do ano 2047 que recomenda conte'' @ [250]
              @ lit ''dos personalizados sobre arte, cultura e tecnologia.''))]"

definition user_message_with :: "str \<Rightarrow> str \<Rightarrow> message" where
  "user_message_with user_message context =
     Dict [(lit ''role'', PStr (lit ''user'')),
           (lit ''content'',
            PStr (lit ''Oi Buddy! '' @ user_message @ [10, 10] @ lit ''Contexto:'' @ [10]
              @ context))]"

text \<open>Lines 220--236: the history when there is one, else the two messages.\<close>

definition build_messages :: "BuddyRequest \<Rightarrow> message list" where
  "build_messages request =
     (case history request of
        Some (h # hs) \<Rightarrow> map Dict (h # hs)
      | _ \<Rightarrow> [system_message,
              user_message_with (message request) (derived_context request)])"

text \<open>
  Lines 249--269, once the first answer holds a tool call: the arguments are parsed, the
  two coordinates read, the weather fetched, the two messages appended and the provider
  called again, without tools. The result is \<^verbatim>\<open>resposta_final\<close>, with the calls made.
\<close>

definition tool_round ::
  "world \<Rightarrow> message list \<Rightarrow> ChatCompletionMessage \<Rightarrow> ToolCall
     \<Rightarrow> (exn + str option) \<times> event list" where
  "tool_round w messages response_message tool_call =
     (case arguments tool_call of
        Malformed \<Rightarrow> (Inl JSONDecodeError, [])
      | Parses args \<Rightarrow>
          (case getitem args (lit ''latitude'') of
             Inl e \<Rightarrow> (Inl e, [])
           | Inr latitude \<Rightarrow>
               (case getitem args (lit ''longitude'') of
                  Inl e \<Rightarrow> (Inl e, [])
                | Inr longitude \<Rightarrow>
                    (let (resultado, weather_calls) = get_weather w latitude longitude;
                         messages' = messages @
                           [ModelDump response_message,
                            ToolMessage (tool_call_id tool_call) resultado]
                     in (case chat_completions_create w messages' False of
                           Inl e \<Rightarrow> Inl e
                         | Inr completion \<Rightarrow> Inr (content completion),
                         weather_calls @ [ChatCompletion messages' False])))))"

text \<open>
  Lines 274--278. \<^verbatim>\<open>resposta_final.replace\<close> raises \<^verbatim>\<open>AttributeError\<close> when the answer
  has no text.
\<close>

definition respond :: "BuddyRequest \<Rightarrow> str option \<Rightarrow> exn + JSONResponse" where
  "respond request resposta_final =
     (if voice_enabled request = Some True then
        (case resposta_final of
           None \<Rightarrow> Inl AttributeError
         | Some answer \<Rightarrow>
             Inr \<lparr>response = Some answer,
                  audio_url =
                    Some (lit ''/api/buddy/speech?text='' @ replace (lit '' '') (lit ''%20'') answer)\<rparr>)
      else Inr \<lparr>response = resposta_final, audio_url = None\<rparr>)"

text \<open>The \<^verbatim>\<open>try\<close> block, lines 207--278.\<close>

definition try_block :: "world \<Rightarrow> BuddyRequest \<Rightarrow> (exn + JSONResponse) \<times> event list" where
  "try_block w request =
     (if message request = [] then
        (Inl (HTTPException 400 (Text (lit ''Mensagem vazia''))), [])
      else
        (let messages = build_messages request
         in (case chat_completions_create w messages True of
               Inl e \<Rightarrow> (Inl e, [ChatCompletion messages True])
             | Inr response_message \<Rightarrow>
                 (case tool_calls response_message of
                    [] \<Rightarrow>
                      (respond request (content response_message),
                       [ChatCompletion messages True])
                  | tool_call # others \<Rightarrow>
                      (case tool_round w messages response_message tool_call of
                         (Inl e, calls) \<Rightarrow> (Inl e, ChatCompletion messages True # calls)
                       | (Inr resposta_final, calls) \<Rightarrow>
                           (respond request resposta_final,
                            ChatCompletion messages True # calls))))))"

text \<open>
  Lines 280--282: \<^verbatim>\<open>except Exception as e\<close> catches whatever the \<^verbatim>\<open>try\<close> block raised,
  an \<^verbatim>\<open>HTTPException\<close> included, and raises \<^verbatim>\<open>HTTPException(500, str(e))\<close>.
\<close>

definition process_buddy_request ::
  "world \<Rightarrow> BuddyRequest \<Rightarrow> (exn + JSONResponse) \<times> event list" where
  "process_buddy_request w request =
     (case try_block w request of
        (Inl e, calls) \<Rightarrow> (Inl (HTTPException 500 (StrOf e)), calls)
      | (Inr r, calls) \<Rightarrow> (Inr r, calls))"

subsection \<open>The claim about the context, in the specification's words\<close>

text \<open>
  An entry shares a token with the message when a token of the message and a token of
  the entry are equal once both are in lower case.
\<close>

definition shares_token :: "str \<Rightarrow> str \<Rightarrow> bool" where
  "shares_token user_message doc =
     list_ex (\<lambda>t. list_ex (\<lambda>u. lower t = lower u) (split doc)) (split user_message)"

definition spec_context :: "str \<Rightarrow> str" where
  "spec_context user_message =
     (let matches = [doc \<leftarrow> base_conhecimento. shares_token user_message doc]
      in if matches = [] then nenhuma_informacao else join [10] matches)"

text \<open>
  A token of \<open>s\<close>: a stretch of \<open>s\<close> that is not empty, holds no white space, and has
  white space or an end of \<open>s\<close> on either side.
\<close>

abbreviation not_space :: "nat \<Rightarrow> bool" where
  "not_space \<equiv> (\<lambda>c. \<not> isspace c)"

definition token_of :: "str \<Rightarrow> str \<Rightarrow> bool" where
  "token_of s tok \<longleftrightarrow>
     tok \<noteq> [] \<and> list_all not_space tok \<and>
     (\<exists>pre suf. s = pre @ tok @ suf \<and>
        (pre = [] \<or> isspace (last pre)) \<and> (suf = [] \<or> isspace (hd suf)))"

subsection \<open>Example data\<close>

definition product_X :: Product where
  "product_X =
     \<lparr>title = lit ''X'', description = lit ''first'', category = lit ''c'', price = 10,
      image' = None, brand = None, model = None, year = None\<rparr>"

definition product_Y :: Product where
  "product_Y =
     \<lparr>title = lit ''Y'', description = lit ''second'', category = lit ''c'', price = 20,
      image' = None, brand = Some (lit ''b''), model = None, year = Some 2047\<rparr>"

definition product_Z :: Product where
  "product_Z =
     \<lparr>title = lit ''Z'', description = lit ''third'', category = lit ''c'', price = 30,
      image' = None, brand = None, model = None, year = None\<rparr>"

text \<open>No file yet, and nothing seeded: an empty catalog with counter 1.\<close>

definition empty_state :: state where
  "empty_state = init_state Absent"

text \<open>The scenario of the specification: two creates, a delete of the first, a create.\<close>

definition scenario :: "(write_outcome \<times> call) list" where
  "scenario =
     [(Written, Create product_X), (Written, Create product_Y), (Written, Delete 1),
      (Written, Create product_Z)]"

definition two_products :: state where
  "two_products =
     \<lparr>products_db = [with_id product_X 1, with_id product_Y 2], product_id_counter = 3,
      data_file = Absent\<rparr>"

text \<open>A file that holds one product, with id 1, and no counter.\<close>

definition file_without_counter :: json_file where
  "file_without_counter = Json \<lparr>products = Some [with_id product_X 1], counter = None\<rparr>"

text \<open>
  Requests as the endpoint receives them when the body gives only the message: the
  defaults of \<^verbatim>\<open>BuddyRequest\<close> are the empty context, the empty history and no voice.
\<close>

definition request_of :: "str \<Rightarrow> BuddyRequest" where
  "request_of user_message =
     \<lparr>message = user_message, context' = Some [], history = Some [],
      voice_enabled = Some False\<rparr>"

text \<open>A provider that answers with a text at once, and a weather service out of reach.\<close>

definition world_hello :: world where
  "world_hello =
     \<lparr>chat_completions_create =
        (\<lambda>messages tools. Inr \<lparr>content = Some (lit ''Hello world''), tool_calls = []\<rparr>),
      requests_get_json = (\<lambda>latitude longitude. Inl (OtherError (lit ''unreachable'')))\<rparr>"



section \<open>Properties\<close>

subsection \<open>Auxiliary facts about the catalog\<close>

lemma id_with_id: "id' (with_id p n) = n"
  by (simp add: with_id_def Product.extend_def ProductInDB.fields_def)

lemma truncate_with_id: "Product.truncate (with_id p n) = p"
  by (simp add: with_id_def Product.extend_def Product.truncate_def)

lemma fields_with_id:
  "title (with_id p n) = title p" "description (with_id p n) = description p"
  "category (with_id p n) = category p" "price (with_id p n) = price p"
  "image' (with_id p n) = image' p" "brand (with_id p n) = brand p"
  "model (with_id p n) = model p" "year (with_id p n) = year p"
  by (simp_all add: with_id_def Product.extend_def)

lemma first_index_None: "first_index n ps = None \<longleftrightarrow> n \<notin> id' ` set ps"
  by (induction ps) auto

lemma first_index_Some:
  "first_index n ps = Some i \<Longrightarrow>
     i < length ps \<and> id' (ps ! i) = n \<and> (\<forall>j<i. id' (ps ! j) \<noteq> n)"
proof (induction ps arbitrary: i)
  case Nil
  then show ?case by simp
next
  case (Cons p ps)
  show ?case
  proof (cases "id' p = n")
    case True
    with Cons.prems show ?thesis by simp
  next
    case False
    with Cons.prems obtain k where k: "first_index n ps = Some k" "i = Suc k"
      by auto
    from Cons.IH [OF k(1)] False k(2) show ?thesis
      by (auto simp: less_Suc_eq_0_disj)
  qed
qed

lemma create_inv: "counter_above_ids s \<Longrightarrow> counter_above_ids (snd (create_product w p s))"
  by (auto simp: counter_above_ids_def create_product_def Let_def id_with_id)

lemma update_inv: "counter_above_ids s \<Longrightarrow> counter_above_ids (snd (update_product w n p s))"
proof (cases "first_index n (products_db s)")
  case None
  assume "counter_above_ids s"
  with None show ?thesis by (simp add: update_product_def)
next
  case (Some i)
  assume inv: "counter_above_ids s"
  from first_index_Some [OF Some] have i: "i < length (products_db s)" "id' (products_db s ! i) = n"
    by auto
  then have "n < product_id_counter s"
    using inv by (auto simp: counter_above_ids_def)
  then show ?thesis
    using inv Some
    by (auto simp: counter_above_ids_def update_product_def Let_def id_with_id
        dest!: set_update_subset_insert [THEN subsetD])
qed

lemma delete_inv: "counter_above_ids s \<Longrightarrow> counter_above_ids (snd (delete_product w n s))"
  by (auto simp: counter_above_ids_def delete_product_def Let_def
      split: option.splits dest: in_set_takeD in_set_dropD)

lemma step_inv: "counter_above_ids s \<Longrightarrow> counter_above_ids (snd (step c s))"
proof (cases c)
  case (Pair w k)
  assume inv: "counter_above_ids s"
  show ?thesis
  proof (cases k)
    case (Create p)
    with Pair create_inv [OF inv, of w p] show ?thesis
      by (auto split: prod.splits)
  next
    case (Update n p)
    with Pair update_inv [OF inv, of w n p] show ?thesis
      by (auto split: prod.splits sum.splits)
  next
    case (Delete n)
    with Pair delete_inv [OF inv, of w n] show ?thesis
      by (auto split: prod.splits sum.splits)
  qed
qed

lemma step_counter_mono: "product_id_counter s \<le> product_id_counter (snd (step c s))"
  by (cases "(c, s)" rule: step.cases)
     (auto simp: create_product_def update_product_def delete_product_def Let_def
        split: option.splits)

lemma step_Created:
  "fst (step c s) = Created a \<Longrightarrow>
     a = product_id_counter s \<and> product_id_counter (snd (step c s)) = a + 1"
  by (cases "(c, s)" rule: step.cases)
     (auto simp: create_product_def update_product_def delete_product_def Let_def id_with_id
        split: option.splits)

lemma first_index_in_ids: "first_index n ps = Some i \<Longrightarrow> n \<in> id' ` set ps"
  using first_index_None [of n ps] by auto

lemma step_Deleted:
  "fst (step c s) = Deleted b \<Longrightarrow> b \<in> ids s"
  by (cases "(c, s)" rule: step.cases)
     (auto simp: create_product_def update_product_def delete_product_def Let_def ids_def
        split: option.splits dest: first_index_in_ids)

lemma length_run: "length (run cs s) = length cs"
  by (induction cs arbitrary: s) auto

lemma run_Created_ge:
  "j < length cs \<Longrightarrow> run cs s ! j = Created a \<Longrightarrow> product_id_counter s \<le> a"
proof (induction cs arbitrary: s j)
  case Nil
  then show ?case by simp
next
  case (Cons c cs)
  show ?case
  proof (cases j)
    case 0
    with Cons.prems step_Created [of c s a] show ?thesis by simp
  next
    case (Suc k)
    with Cons.prems have "product_id_counter (snd (step c s)) \<le> a"
      using Cons.IH [of k "snd (step c s)"] by simp
    with step_counter_mono [of s c] show ?thesis by simp
  qed
qed

lemma run_order:
  "counter_above_ids s \<Longrightarrow> i < j \<Longrightarrow> j < length cs \<Longrightarrow> run cs s ! j = Created a \<Longrightarrow>
   run cs s ! i = Created b \<or> run cs s ! i = Deleted b \<Longrightarrow> b < a"
proof (induction cs arbitrary: s i j)
  case Nil
  then show ?case by simp
next
  case (Cons c cs)
  let ?s' = "snd (step c s)"
  from Cons.prems obtain k where j: "j = Suc k" by (cases j) auto
  with Cons.prems have k: "k < length cs" "run cs ?s' ! k = Created a" by auto
  show ?case
  proof (cases i)
    case 0
    from run_Created_ge [OF k] have ge: "product_id_counter ?s' \<le> a" .
    from 0 Cons.prems(5) have "fst (step c s) = Created b \<or> fst (step c s) = Deleted b"
      by simp
    then show ?thesis
    proof
      assume "fst (step c s) = Created b"
      from step_Created [OF this] ge show ?thesis by simp
    next
      assume "fst (step c s) = Deleted b"
      from step_Deleted [OF this] Cons.prems(1) have "b < product_id_counter s"
        by (auto simp: ids_def counter_above_ids_def)
      with step_counter_mono [of s c] ge show ?thesis by simp
    qed
  next
    case (Suc i')
    with Cons.prems j have "i' < k"
      and "run cs ?s' ! i' = Created b \<or> run cs ?s' ! i' = Deleted b" by auto
    from Cons.IH [OF step_inv [OF Cons.prems(1)] this(1) k this(2)] show ?thesis .
  qed
qed

lemma run_above_initial:
  "counter_above_ids s \<Longrightarrow> j < length cs \<Longrightarrow> run cs s ! j = Created a \<Longrightarrow>
   \<forall>n \<in> ids s. n < a"
  using run_Created_ge [of j cs s a] by (auto simp: ids_def counter_above_ids_def)

lemma find_last_fresh:
  "n \<notin> id' ` set ps \<Longrightarrow> id' q = n \<Longrightarrow> find (\<lambda>p. id' p = n) (ps @ [q]) = Some q"
  by (induction ps) auto

subsection \<open>Claims about the catalog\<close>

text \<open>
  C3. From a state whose counter is above every id present, \<open>create_product\<close>,
  \<open>update_product\<close> and \<open>delete_product\<close> each lead to such a state again, whatever the
  file system does. Hence in every sequence of requests run from such a state, the id a
  create returns is above every id present at the start, above every id returned by an
  earlier create, and above every id an earlier delete removed: ids grow strictly, and a
  deleted id is never assigned again.
\<close>

theorem counter_stays_above_ids:
  assumes "counter_above_ids s"
  shows "counter_above_ids (snd (create_product w p s)) \<and>
         counter_above_ids (snd (update_product w n p s)) \<and>
         counter_above_ids (snd (delete_product w n s)) \<and>
         (\<forall>j < length (run cs s). \<forall>a. run cs s ! j = Created a \<longrightarrow>
            (\<forall>m \<in> ids s. m < a) \<and>
            (\<forall>i < j. \<forall>b. run cs s ! i = Created b \<or> run cs s ! i = Deleted b \<longrightarrow> b < a))"
proof -
  have "\<forall>j < length (run cs s). \<forall>a. run cs s ! j = Created a \<longrightarrow>
            (\<forall>m \<in> ids s. m < a) \<and>
            (\<forall>i < j. \<forall>b. run cs s ! i = Created b \<or> run cs s ! i = Deleted b \<longrightarrow> b < a)"
  proof (intro allI impI conjI)
    fix j a
    assume j: "j < length (run cs s)" and a: "run cs s ! j = Created a"
    from j have j': "j < length cs" by (simp add: length_run)
    from run_above_initial [OF assms j' a] show "\<forall>m \<in> ids s. m < a" .
    fix i b
    assume "i < j" and "run cs s ! i = Created b \<or> run cs s ! i = Deleted b"
    from run_order [OF assms this(1) j' a this(2)] show "b < a" .
  qed
  with create_inv [OF assms] update_inv [OF assms] delete_inv [OF assms]
  show ?thesis by blast
qed

lemma run_scenario: "run scenario empty_state = [Created 1, Created 2, Deleted 1, Created 3]"
  by (simp add: scenario_def empty_state_def init_state_def create_product_def
      delete_product_def Let_def id_with_id)

text \<open>
  C3, witness: the scenario of the specification, run from the empty catalog.
\<close>

theorem counter_stays_above_ids_witness:
  "counter_above_ids empty_state \<and>
   counter_above_ids (snd (create_product Written product_X empty_state)) \<and>
   run scenario empty_state = [Created 1, Created 2, Deleted 1, Created 3]"
proof -
  have h: "counter_above_ids empty_state"
    by (simp add: counter_above_ids_def empty_state_def init_state_def)
  from counter_stays_above_ids [OF h, of Written product_X 0 scenario]
  have "counter_above_ids (snd (create_product Written product_X empty_state))"
    by (rule conjunct1)
  with h run_scenario show ?thesis by simp
qed

text \<open>
  C4. \<open>update_product\<close> with an id that no entry carries raises the 404 and returns the
  state as it was: the list and its order, the counter and the file.
\<close>

theorem update_missing_id:
  "product_id \<notin> ids s \<Longrightarrow>
   update_product w product_id product s =
     (Inl (HTTPException 404 (Text (lit ''Produto n'' @ [227] @ lit ''o encontrado''))), s)"
  using first_index_None [of product_id "products_db s"]
  by (simp add: update_product_def ids_def not_found_def)

text \<open>
  C4, witness: no entry of the two-product catalog has id 7.
\<close>

theorem update_missing_id_witness:
  "7 \<notin> ids two_products \<and>
   update_product Written 7 product_Z two_products =
     (Inl (HTTPException 404 (Text (lit ''Produto n'' @ [227] @ lit ''o encontrado''))),
      two_products)"
proof -
  have h: "7 \<notin> ids two_products"
    by (simp add: ids_def two_products_def id_with_id)
  from update_missing_id [OF h] h show ?thesis by simp
qed

text \<open>
  C5 does not hold in every state. Loaded from a file that has no counter, the catalog
  holds id 1 while the counter is 1: the product created next is given id 1, which is
  not fresh, and \<open>get_product 1\<close> returns the older entry, whose title is not the new one's.
\<close>

theorem create_then_get_counterexample:
  "id' (fst (create_product Written product_Y (init_state file_without_counter)))
     \<in> ids (init_state file_without_counter) \<and>
   get_product (id' (fst (create_product Written product_Y (init_state file_without_counter))))
     (snd (create_product Written product_Y (init_state file_without_counter)))
     = Inr (with_id product_X 1) \<and>
   title (with_id product_X 1) \<noteq> title product_Y"
  by (simp add: init_state_def file_without_counter_def create_product_def Let_def
      get_product_def id_with_id ids_def fields_with_id product_X_def product_Y_def)

text \<open>
  C5, amended: in a state whose counter is not the id of any entry (so in every state
  that satisfies the invariant), \<open>create_product\<close> returns an entry whose id no entry had,
  \<open>get_product\<close> on that id returns the same entry, and its fields are those of the input.
\<close>

theorem create_then_get:
  assumes "product_id_counter s \<notin> ids s" and "create_product w p s = (r, s')"
  shows "id' r \<notin> ids s \<and> get_product (id' r) s' = Inr r \<and> Product.truncate r = p \<and>
         title r = title p \<and> description r = description p \<and> category r = category p \<and>
         price r = price p \<and> image' r = image' p \<and> brand r = brand p \<and>
         model r = model p \<and> year r = year p"
proof -
  from assms(2) have r: "r = with_id p (product_id_counter s)"
    and s': "products_db s' = products_db s @ [r]"
    by (auto simp: create_product_def Let_def)
  from r have idr: "id' r = product_id_counter s" by (simp add: id_with_id)
  with assms(1) have fresh: "id' r \<notin> id' ` set (products_db s)" by (simp add: ids_def)
  from find_last_fresh [OF fresh refl] s' have "get_product (id' r) s' = Inr r"
    by (simp add: get_product_def)
  with fresh r show ?thesis
    by (simp add: ids_def truncate_with_id fields_with_id)
qed

text \<open>
  C5, witness: a third product is created in the two-product catalog.
\<close>

theorem create_then_get_witness:
  "product_id_counter two_products \<notin> ids two_products \<and>
   create_product Written product_Z two_products =
     (with_id product_Z 3,
      \<lparr>products_db = [with_id product_X 1, with_id product_Y 2, with_id product_Z 3],
       product_id_counter = 4,
       data_file = Json \<lparr>products = Some [with_id product_X 1, with_id product_Y 2, with_id product_Z 3],
                         counter = Some 4\<rparr>\<rparr>) \<and>
   get_product 3 (snd (create_product Written product_Z two_products)) = Inr (with_id product_Z 3) \<and>
   Product.truncate (with_id product_Z 3) = product_Z"
proof -
  have h: "product_id_counter two_products \<notin> ids two_products"
    by (simp add: ids_def two_products_def id_with_id)
  have c: "create_product Written product_Z two_products =
     (with_id product_Z 3,
      \<lparr>products_db = [with_id product_X 1, with_id product_Y 2, with_id product_Z 3],
       product_id_counter = 4,
       data_file = Json \<lparr>products = Some [with_id product_X 1, with_id product_Y 2, with_id product_Z 3],
                         counter = Some 4\<rparr>\<rparr>)"
    by (simp add: create_product_def two_products_def Let_def)
  from create_then_get [OF h c] h c show ?thesis by (simp add: id_with_id)
qed




text \<open>
  C9. For a file that parses to an object without the key \<^verbatim>\<open>"counter"\<close>,
  \<open>load_products\<close> returns counter 1 whatever products the file holds. If one of them has
  id 1, \<open>startup_event\<close> leaves the loaded state alone, and the next create returns an id
  that an entry of the catalog already carries.
\<close>

theorem load_without_counter:
  assumes "counter d = None"
  shows "snd (load_products (Json d)) = 1 \<and>
         product_id_counter (init_state (Json d)) = 1 \<and>
         (\<forall>ps q. products d = Some ps \<and> q \<in> set ps \<and> id' q = 1 \<longrightarrow>
            startup_event w (init_state (Json d)) = init_state (Json d) \<and>
            id' (fst (create_product w' p (init_state (Json d)))) \<in> ids (init_state (Json d)))"
  using assms
  by (auto simp: init_state_def startup_event_def create_product_def Let_def id_with_id ids_def)

text \<open>
  C9, witness: the file with one product, of id 1, and no counter.
\<close>

theorem load_without_counter_witness:
  "counter \<lparr>products = Some [with_id product_X 1], counter = None\<rparr> = None \<and>
   init_state file_without_counter =
     \<lparr>products_db = [with_id product_X 1], product_id_counter = 1,
      data_file = file_without_counter\<rparr> \<and>
   id' (fst (create_product Written product_Y (init_state file_without_counter))) = 1 \<and>
   id' (fst (create_product Written product_Y (init_state file_without_counter)))
     \<in> ids (init_state file_without_counter)"
proof -
  have h: "counter \<lparr>products = Some [with_id product_X 1], counter = None\<rparr> = None" by simp
  from load_without_counter [OF h, of Written Written product_Y] h show ?thesis
    by (simp add: file_without_counter_def init_state_def create_product_def Let_def id_with_id)
qed

text \<open>
  C10. For an id some entry carries, let \<open>i\<close> be the position of the first such entry.
  \<open>update_product\<close> puts the new fields, with the same id, at position \<open>i\<close>: the length,
  every other entry and the order of ids in the listing stay as they were.
  \<open>delete_product\<close> removes the entry at position \<open>i\<close> and nothing else: what remains is
  the entries before \<open>i\<close> followed by the entries after \<open>i\<close>.
\<close>

theorem update_delete_in_place:
  assumes "n \<in> ids s"
  shows "\<exists>i < length (products_db s).
           id' (products_db s ! i) = n \<and> (\<forall>j < i. id' (products_db s ! j) \<noteq> n) \<and>
           fst (update_product w n p s) = Inr (with_id p n) \<and>
           get_products (snd (update_product w n p s)) = (products_db s)[i := with_id p n] \<and>
           length (get_products (snd (update_product w n p s))) = length (products_db s) \<and>
           (\<forall>j < length (products_db s). j \<noteq> i \<longrightarrow>
              get_products (snd (update_product w n p s)) ! j = products_db s ! j) \<and>
           map id' (get_products (snd (update_product w n p s))) = map id' (products_db s) \<and>
           fst (delete_product w' n s) = Inr deleted_message \<and>
           get_products (snd (delete_product w' n s)) =
             take i (products_db s) @ drop (Suc i) (products_db s)"
proof -
  from assms obtain i where fi: "first_index n (products_db s) = Some i"
    using first_index_None [of n "products_db s"] by (auto simp: ids_def)
  from first_index_Some [OF fi]
  have i: "i < length (products_db s)" "id' (products_db s ! i) = n"
    "\<forall>j < i. id' (products_db s ! j) \<noteq> n" by auto
  have m: "map id' ((products_db s)[i := with_id p n]) = map id' (products_db s)"
    using i(1,2) by (simp add: map_update id_with_id list_update_same_conv)
  show ?thesis
    using fi i m
    by (intro exI [of _ i])
       (simp add: update_product_def delete_product_def get_products_def Let_def)
qed

text \<open>
  C10, witness: update and delete of id 1 in the two-product catalog.
\<close>

theorem update_delete_in_place_witness:
  "1 \<in> ids two_products \<and>
   get_products (snd (update_product Written 1 product_Z two_products)) =
     [with_id product_Z 1, with_id product_Y 2] \<and>
   get_products (snd (delete_product Written 1 two_products)) = [with_id product_Y 2]"
proof -
  have h: "1 \<in> ids two_products"
    by (simp add: ids_def two_products_def id_with_id)
  from update_delete_in_place [OF h, of Written product_Z Written] obtain i where
    i: "i < length (products_db two_products)" "id' (products_db two_products ! i) = 1"
      "\<forall>j < i. id' (products_db two_products ! j) \<noteq> 1"
    and u: "get_products (snd (update_product Written 1 product_Z two_products)) =
             (products_db two_products)[i := with_id product_Z 1]"
    and d: "get_products (snd (delete_product Written 1 two_products)) =
             take i (products_db two_products) @ drop (Suc i) (products_db two_products)"
    by blast
  from i have "i = 0"
    by (cases i) (auto simp: two_products_def id_with_id)
  with u d h show ?thesis by (simp add: two_products_def)
qed

subsection \<open>Auxiliary facts about strings\<close>

text \<open>The built-in operations on examples, with the values Python gives.\<close>

lemma builtin_examples:
  "split (lit ''  Oi  Buddy '' @ [9] @ lit ''tudo bem'' @ [10]) =
     [lit ''Oi'', lit ''Buddy'', lit ''tudo'', lit ''bem'']"
  "split (lit ''   '') = []"
  "lower (lit ''IA Criativa '' @ [201, 215]) = lit ''ia criativa '' @ [233, 215]"
  "join [10] [lit ''a'', lit ''b'', lit ''c''] = lit ''a'' @ [10] @ lit ''b'' @ [10] @ lit ''c''"
  "contains (lit ''art'') (lit ''da arte'')"
  "\<not> contains (lit ''oi'') (lit ''por meio'')"
  "replace (lit '' '') (lit ''%20'') (lit ''a b  c'') = lit ''a%20b%20%20c''"
  "replace (lit ''aa'') (lit ''b'') (lit ''aaaaa'') = lit ''bba''"
  "replace [] (lit ''-'') (lit ''ab'') = lit ''-a-b-''"
  by (simp_all add: split_def isspace_def lower_def lower_char_def replace.simps)

lemma startswith_iff: "startswith s p \<longleftrightarrow> (\<exists>suf. s = p @ suf)"
  by (induction s p rule: startswith.induct) auto

lemma contains_iff: "contains sub s \<longleftrightarrow> (\<exists>pre suf. s = pre @ sub @ suf)"
proof (induction s)
  case Nil
  then show ?case by auto
next
  case (Cons c cs)
  show ?case
  proof
    assume "contains sub (c # cs)"
    then consider "startswith (c # cs) sub" | "contains sub cs" by auto
    then show "\<exists>pre suf. c # cs = pre @ sub @ suf"
    proof cases
      case 1
      then obtain suf where "c # cs = sub @ suf" by (auto simp: startswith_iff)
      then have "c # cs = [] @ sub @ suf" by simp
      then show ?thesis by blast
    next
      case 2
      with Cons.IH obtain pre suf where "cs = pre @ sub @ suf" by auto
      then have "c # cs = (c # pre) @ sub @ suf" by simp
      then show ?thesis by blast
    qed
  next
    assume "\<exists>pre suf. c # cs = pre @ sub @ suf"
    then obtain pre suf where e: "c # cs = pre @ sub @ suf" by auto
    show "contains sub (c # cs)"
    proof (cases pre)
      case Nil
      with e have "startswith (c # cs) sub" by (auto simp: startswith_iff)
      then show ?thesis by simp
    next
      case (Cons a pre')
      with e have "cs = pre' @ sub @ suf" by simp
      with Cons.IH have "contains sub cs" by auto
      then show ?thesis by simp
    qed
  qed
qed




lemma split_from_eq:
  "split_from word s =
     (if word @ takeWhile not_space s = [] then [] else [word @ takeWhile not_space s]) @
     (case dropWhile not_space s of [] \<Rightarrow> [] | c # cs \<Rightarrow> split_from [] cs)"
proof (induction s arbitrary: word)
  case Nil
  then show ?case by simp
next
  case (Cons a s)
  show ?case
  proof (cases "isspace a")
    case True
    then show ?thesis by simp
  next
    case False
    then show ?thesis using Cons.IH [of "word @ [a]"] by simp
  qed
qed

lemma split_unfold:
  "split s =
     (if takeWhile not_space s = [] then [] else [takeWhile not_space s]) @
     (case dropWhile not_space s of [] \<Rightarrow> [] | c # cs \<Rightarrow> split cs)"
  unfolding split_def using split_from_eq [of "[]" s] by simp

lemma token_ofI:
  "tok \<noteq> [] \<Longrightarrow> list_all not_space tok \<Longrightarrow> s = pre @ tok @ suf \<Longrightarrow>
   pre = [] \<or> isspace (last pre) \<Longrightarrow> suf = [] \<or> isspace (hd suf) \<Longrightarrow> token_of s tok"
  unfolding token_of_def by (intro conjI exI [of _ pre] exI [of _ suf]) assumption+

lemma split_tokens: "tok \<in> set (split s) \<longleftrightarrow> token_of s tok"
proof (induction s arbitrary: tok rule: length_induct)
  case (1 s)
  let ?w = "takeWhile not_space s" and ?r = "dropWhile not_space s"
  have s: "s = ?w @ ?r" by simp
  have r: "?r = [] \<or> isspace (hd ?r)"
    using hd_dropWhile [of not_space s] by auto
  show ?case
  proof
    assume "tok \<in> set (split s)"
    then have "tok \<in> set ((if ?w = [] then [] else [?w]) @
        (case ?r of [] \<Rightarrow> [] | c # cs \<Rightarrow> split cs))"
      using split_unfold [of s] by simp
    then consider "tok = ?w" "?w \<noteq> []"
      | c cs where "?r = c # cs" "tok \<in> set (split cs)"
      by (cases ?r) (auto split: if_splits)
    then show "token_of s tok"
    proof cases
      case 1
      have "list_all not_space ?w"
        by (auto simp: list_all_iff dest: set_takeWhileD)
      moreover have "s = [] @ ?w @ ?r" by simp
      ultimately show ?thesis
        using 1 r by (intro token_ofI [of tok s "[]" ?r]) simp_all
    next
      case 2
      from 2(1) r have c: "isspace c" by simp
      from 2(1) have "length cs < length s"
        using arg_cong [OF s, of length] by simp
      with 1 2(2) have "token_of cs tok" by blast
      then obtain pre suf where t: "tok \<noteq> []" "list_all not_space tok" "cs = pre @ tok @ suf"
        "pre = [] \<or> isspace (last pre)" "suf = [] \<or> isspace (hd suf)"
        unfolding token_of_def by blast
      from s 2(1) t(3) have "s = (?w @ c # pre) @ tok @ suf" by simp
      moreover have "isspace (last (?w @ c # pre))" using c t(4) by auto
      ultimately show ?thesis
        using t(1,2,5) by (intro token_ofI [of tok s "?w @ c # pre" suf]) simp_all
    qed
  next
    assume "token_of s tok"
    then obtain pre suf where t: "tok \<noteq> []" "list_all not_space tok" "s = pre @ tok @ suf"
      "pre = [] \<or> isspace (last pre)" "suf = [] \<or> isspace (hd suf)"
      unfolding token_of_def by blast
    show "tok \<in> set (split s)"
    proof (cases "pre = []")
      case True
      have "takeWhile not_space suf = []" using t(5) by (cases suf) auto
      with True t(2,3) have "?w = tok"
        by (simp add: takeWhile_append2 list_all_iff)
      with t(1) show ?thesis by (subst split_unfold) simp
    next
      case False
      with t(4) have sp: "last pre \<in> set pre" "isspace (last pre)" by auto
      then have d: "dropWhile not_space pre \<noteq> []" by (auto simp: dropWhile_eq_Nil_conv)
      then obtain c pre' where cp: "dropWhile not_space pre = c # pre'" by (cases "dropWhile not_space pre") auto
      have "pre = takeWhile not_space pre @ dropWhile not_space pre" by simp
      with d have "last pre = last (dropWhile not_space pre)" by (metis last_appendR)
      with cp sp(2) have l: "pre' = [] \<or> isspace (last pre')"
        by (cases "pre' = []") simp_all
      from sp t(3) have "?r = dropWhile not_space pre @ tok @ suf"
        by (simp add: dropWhile_append1)
      with cp have rr: "?r = c # (pre' @ tok @ suf)" by simp
      have "token_of (pre' @ tok @ suf) tok"
        using t(1,2,5) l by (intro token_ofI [of tok _ pre' suf]) simp_all
      moreover have "length (pre' @ tok @ suf) < length s"
        using arg_cong [OF s, of length] rr by simp
      ultimately have "tok \<in> set (split (pre' @ tok @ suf))" using 1 by blast
      with rr show ?thesis by (subst split_unfold) simp
    qed
  qed
qed

subsection \<open>Claims about the assistant\<close>

text \<open>
  The context search on two messages: \<^verbatim>\<open>"Oi"\<close> occurs in no entry; \<^verbatim>\<open>"art"\<close> occurs in
  the first, third and fourth entry (in \<^verbatim>\<open>arte\<close>, \<^verbatim>\<open>artificial\<close>, \<^verbatim>\<open>artistas\<close>) and is
  a token of none.
\<close>

lemma oi_eval: "derived_context (request_of (lit ''Oi'')) = nenhuma_informacao"
  by (simp add: derived_context_def request_of_def buscar_conteudo_relevante_def
      base_conhecimento_def split_def isspace_def lower_def lower_char_def Let_def)

lemma art_eval: "derived_context (request_of (lit ''art'')) =
    join [10] [base_conhecimento ! 0, base_conhecimento ! 2, base_conhecimento ! 3]"
  by (simp add: derived_context_def request_of_def buscar_conteudo_relevante_def
      base_conhecimento_def split_def isspace_def lower_def lower_char_def Let_def)

lemma art_spec: "spec_context (lit ''art'') = nenhuma_informacao"
  by (simp add: spec_context_def shares_token_def
      base_conhecimento_def split_def isspace_def lower_def lower_char_def Let_def)

lemma art_differs:
  "join [10] [base_conhecimento ! 0, base_conhecimento ! 2, base_conhecimento ! 3]
     \<noteq> nenhuma_informacao"
  by (simp add: base_conhecimento_def nenhuma_informacao_def)

text \<open>
  C1. What the endpoint does with an empty message: the \<^verbatim>\<open>HTTPException\<close> with status
  400 is raised inside the \<^verbatim>\<open>try\<close> block and caught by its \<^verbatim>\<open>except Exception\<close>, so the
  caller gets status 500, with the 400 as its detail. No call leaves the process: the
  provider is not called.
\<close>

theorem empty_message_answer:
  "process_buddy_request w (request\<lparr>message := []\<rparr>) =
     (Inl (HTTPException 500 (StrOf (HTTPException 400 (Text (lit ''Mensagem vazia''))))), [])"
  by (simp add: process_buddy_request_def try_block_def)

text \<open>
  C2 does not hold as stated: the entries kept are not those that share a token with the
  message. For the message \<^verbatim>\<open>"art"\<close>, sent with no context, the derived context is the
  first, third and fourth entry joined by newlines, while no entry has the token
  \<^verbatim>\<open>art\<close>, so that the claim asks for the marker.
\<close>

theorem derived_context_counterexample:
  "message (request_of (lit ''art'')) \<noteq> [] \<and>
   context' (request_of (lit ''art'')) = Some [] \<and>
   derived_context (request_of (lit ''art'')) =
     join [10] [base_conhecimento ! 0, base_conhecimento ! 2, base_conhecimento ! 3] \<and>
   spec_context (message (request_of (lit ''art''))) = nenhuma_informacao \<and>
   derived_context (request_of (lit ''art'')) \<noteq> spec_context (message (request_of (lit ''art'')))"
proof -
  have m: "message (request_of (lit ''art'')) = lit ''art''"
    and c: "context' (request_of (lit ''art'')) = Some []"
    by (simp_all add: request_of_def)
  show ?thesis
    unfolding m art_eval art_spec using c art_differs by simp
qed

lemma filter_pred_eq:
  "list_ex (\<lambda>palavra. contains (lower palavra) (lower doc)) (split m) \<longleftrightarrow>
   (\<exists>tok. token_of m tok \<and> (\<exists>pre suf. lower doc = pre @ lower tok @ suf))"
proof -
  have "list_ex (\<lambda>palavra. contains (lower palavra) (lower doc)) (split m) \<longleftrightarrow>
      (\<exists>tok. tok \<in> set (split m) \<and> contains (lower tok) (lower doc))"
    by (auto simp: list_ex_iff)
  then show ?thesis
    unfolding split_tokens contains_iff .
qed

lemma buscar_spec:
  "buscar_conteudo_relevante m =
     (let hits = [doc \<leftarrow> base_conhecimento.
        \<exists>tok. token_of m tok \<and> (\<exists>pre suf. lower doc = pre @ lower tok @ suf)]
      in if hits = [] then nenhuma_informacao else join [10] hits)"
  unfolding buscar_conteudo_relevante_def filter_pred_eq by (simp add: Let_def)

lemma trace_starts:
  "message r \<noteq> [] \<Longrightarrow>
   \<exists>calls. snd (process_buddy_request w r) = ChatCompletion (build_messages r) True # calls"
  by (auto simp: process_buddy_request_def try_block_def Let_def
      split: sum.splits list.splits prod.splits)

text \<open>
  C2, amended: for a request with a non-empty message and no context (absent or
  empty), the derived context is the newline-join of exactly those entries of the
  knowledge base, in its order, whose lower-case form contains the lower-case form of a
  whitespace-delimited token of the message as a contiguous stretch, or the marker when
  there is no such entry. With no history either, this context is in the user message
  of the first call to the provider.
\<close>

theorem derived_context_substring:
  assumes "message r \<noteq> []" and "context' r = None \<or> context' r = Some []"
  shows "derived_context r =
           (let hits = [doc \<leftarrow> base_conhecimento.
              \<exists>tok. token_of (message r) tok \<and>
                (\<exists>pre suf. lower doc = pre @ lower tok @ suf)]
            in if hits = [] then nenhuma_informacao else join [10] hits) \<and>
         (history r = None \<or> history r = Some [] \<longrightarrow>
            (\<exists>calls. snd (process_buddy_request w r) =
               ChatCompletion
                 [system_message, user_message_with (message r) (derived_context r)] True
               # calls))"
proof -
  from assms(2) have "derived_context r = buscar_conteudo_relevante (message r)"
    by (auto simp: derived_context_def)
  moreover have "history r = None \<or> history r = Some [] \<Longrightarrow>
      build_messages r = [system_message, user_message_with (message r) (derived_context r)]"
    by (auto simp: build_messages_def)
  ultimately show ?thesis
    using trace_starts [OF assms(1), of w] buscar_spec [of "message r"] by auto
qed

text \<open>
  C2, witness: the message \<^verbatim>\<open>"Oi"\<close> of the specification's scenario, with the default
  (empty) context.
\<close>

theorem derived_context_substring_witness:
  "message (request_of (lit ''Oi'')) \<noteq> [] \<and>
   context' (request_of (lit ''Oi'')) = Some [] \<and>
   derived_context (request_of (lit ''Oi'')) = nenhuma_informacao \<and>
   (let hits = [doc \<leftarrow> base_conhecimento.
      \<exists>tok. token_of (message (request_of (lit ''Oi''))) tok \<and>
        (\<exists>pre suf. lower doc = pre @ lower tok @ suf)]
    in if hits = [] then nenhuma_informacao else join [10] hits) = nenhuma_informacao"
proof -
  have h1: "message (request_of (lit ''Oi'')) \<noteq> []"
    and c: "context' (request_of (lit ''Oi'')) = Some []"
    by (simp_all add: request_of_def)
  from c have h2: "context' (request_of (lit ''Oi'')) = None \<or>
      context' (request_of (lit ''Oi'')) = Some []" ..
  from derived_context_substring [OF h1 h2, of world_hello, THEN conjunct1]
  have "(let hits = [doc \<leftarrow> base_conhecimento.
      \<exists>tok. token_of (message (request_of (lit ''Oi''))) tok \<and>
        (\<exists>pre suf. lower doc = pre @ lower tok @ suf)]
    in if hits = [] then nenhuma_informacao else join [10] hits) = nenhuma_informacao"
    unfolding oi_eval by (rule sym)
  with h1 c oi_eval show ?thesis by blast
qed





text \<open>
  Beside C6: when the first tool call does not supply the coordinates (its arguments do
  not parse, or a key is missing), the request ends in status 500 after the first
  submission, and the weather service is not called.
\<close>

lemma tool_call_without_coordinates:
  assumes "message r \<noteq> []"
    and "chat_completions_create w (build_messages r) True = Inr m"
    and "tool_calls m = tc # others"
    and "arguments tc = Malformed \<or>
         (\<exists>args e. arguments tc = Parses args \<and>
            (getitem args (lit ''latitude'') = Inl e \<or> getitem args (lit ''longitude'') = Inl e))"
  shows "\<exists>e. process_buddy_request w r =
           (Inl (HTTPException 500 (StrOf e)), [ChatCompletion (build_messages r) True])"
  using assms
  by (auto simp: process_buddy_request_def try_block_def tool_round_def Let_def
      split: sum.splits json_text.splits)






end
